theory Spec2Isabelle
  imports Main
begin

section \<open>Strings\<close>

text \<open>
  A Python \<^verbatim>\<open>str\<close> is modelled as a \<^typ>\<open>string\<close>, one \<^typ>\<open>char\<close> per code point
  (so only code points below 256 are covered). \<^verbatim>\<open>str.strip()\<close> removes the characters
  for which \<^verbatim>\<open>str.isspace()\<close> holds from both ends; below 256 these are the twelve
  characters listed in \<open>isspace\<close>.
\<close>

definition isspace :: "char \<Rightarrow> bool" where
  "isspace c = (c \<in> set [CHR 0x09, CHR 0x0A, CHR 0x0B, CHR 0x0C, CHR 0x0D,
                          CHR 0x1C, CHR 0x1D, CHR 0x1E, CHR 0x1F, CHR '' '',
                          CHR 0x85, CHR 0xA0])"

definition strip :: "string \<Rightarrow> string" where
  "strip s = rev (dropWhile isspace (rev (dropWhile isspace s)))"

text \<open>
  \<^verbatim>\<open>data.get(key, '')\<close> on the JSON body: a key that is absent reads as the empty string.
  A field of the body is a \<^typ>\<open>string option\<close>, \<open>None\<close> for an absent key.
\<close>

definition get_str :: "string option \<Rightarrow> string" where
  "get_str x = (case x of None \<Rightarrow> [] | Some s \<Rightarrow> s)"

text \<open>
  \<^verbatim>\<open>sanitize_string(value, max_length=None)\<close> of \<^verbatim>\<open>app/utils/validators.py\<close>, on a string
  argument: strip, then cut to \<open>max_length\<close> when that is given and not zero (a zero
  \<open>max_length\<close> is falsy in Python and cuts nothing).
\<close>

definition sanitize_string :: "string \<Rightarrow> nat option \<Rightarrow> string" where
  "sanitize_string v max_length =
     (let sanitized = strip v in
      case max_length of
        None \<Rightarrow> sanitized
      | Some n \<Rightarrow> if n \<noteq> 0 \<and> n < length sanitized then take n sanitized else sanitized)"

section \<open>Data model\<close>

text \<open>
  The three tables of \<^verbatim>\<open>app/simple_app.py\<close>, with the columns the handlers read and
  write. The primary key column \<^verbatim>\<open>id\<close> is the field \<open>user_pk\<close>, \<open>skill_pk\<close>,
  \<open>request_pk\<close>; a nullable column is an \<open>option\<close>. The two status columns are
  short strings in the source and stay strings here. The time stamps are left out.
\<close>

record user =
  user_pk :: int
  is_banned :: bool

record skill =
  skill_pk :: int
  name :: string
  description :: "string option"
  category :: "string option"
  status :: string
  rejection_reason :: "string option"
  created_by :: "int option"

record swap_request =
  request_pk :: int
  requester_id :: int
  receiver_id :: int
  skill_offered :: string
  skill_wanted :: string
  message :: "string option"
  acceptance_message :: "string option"
  status :: string

record database =
  users :: "user list"
  skills :: "skill list"
  swap_requests :: "swap_request list"

text \<open>
  What a handler answers when it does not succeed. The source answers with an HTTP code
  and a message; the constructors name the failure kinds:
  \<^item> \<open>InvalidArgument\<close>: 400 for a missing or blank required field, an unsupported target
    status, a request to oneself;
  \<^item> \<open>NotFound\<close>: 404;
  \<^item> \<open>Conflict\<close>: 400 with \<^verbatim>\<open>'You already have a pending request ...'\<close> or
    \<^verbatim>\<open>'Skill already exists'\<close>;
  \<^item> \<open>Forbidden\<close>: 403;
  \<^item> \<open>InvalidState s\<close>: 400 with \<^verbatim>\<open>'Cannot update request with status: s'\<close>;
  \<^item> \<open>InternalError\<close>: 500 from the handler's \<^verbatim>\<open>except Exception\<close> branch, after a
    rollback.
\<close>

datatype failure =
    InvalidArgument
  | NotFound
  | Conflict
  | Forbidden
  | InvalidState string
  | InternalError

fun http_code :: "failure \<Rightarrow> nat" where
  "http_code InvalidArgument = 400"
| "http_code NotFound = 404"
| "http_code Conflict = 400"
| "http_code Forbidden = 403"
| "http_code (InvalidState s) = 400"
| "http_code InternalError = 500"

text \<open>
  The key of a new row: the store hands out the largest key in use plus one, and 1 for an
  empty table.
\<close>

definition next_id :: "int list \<Rightarrow> int" where
  "next_id ids = foldr max ids 0 + 1"

section \<open>Swap requests (\<^verbatim>\<open>app/routes/swap_request_routes.py\<close>)\<close>

text \<open>
  Every handler takes the store and the acting user's id, and returns its answer
  together with the store after the call. The swap routes convert the identity of the
  token with \<^verbatim>\<open>int\<close>, so the id is an integer here. A failure leaves the store as it
  was: the source returns before it writes, or rolls back.
\<close>

definition can_be_updated_by :: "swap_request \<Rightarrow> int \<Rightarrow> bool" where
  "can_be_updated_by r user_id = (user_id \<in> set [requester_id r, receiver_id r])"

definition valid_statuses :: "string list" where
  "valid_statuses = [''accepted'', ''rejected'', ''cancelled'']"

definition create_swap_request ::
  "database \<Rightarrow> int \<Rightarrow> int option \<Rightarrow> string option \<Rightarrow> string option \<Rightarrow> string option
     \<Rightarrow> (failure + swap_request) \<times> database" where
  "create_swap_request db user_id receiverId skillOffered skillWanted msg =
     (let offered = strip (get_str skillOffered);
          wanted = strip (get_str skillWanted);
          message_text = strip (get_str msg)
      in case receiverId of
           None \<Rightarrow> (Inl InvalidArgument, db)
         | Some rid \<Rightarrow>
             if rid = 0 then (Inl InvalidArgument, db)
             else if offered = [] \<or> wanted = [] then (Inl InvalidArgument, db)
             else if find (\<lambda>u. user_pk u = rid \<and> \<not> is_banned u) (users db) = None
               then (Inl NotFound, db)
             else if user_id = rid then (Inl InvalidArgument, db)
             else if find (\<lambda>r. requester_id r = user_id \<and> receiver_id r = rid \<and>
                               skill_offered r = offered \<and> skill_wanted r = wanted \<and>
                               swap_request.status r = ''pending'') (swap_requests db) \<noteq> None
               then (Inl Conflict, db)
             else
               let new_request =
                     \<lparr>request_pk = next_id (map request_pk (swap_requests db)),
                      requester_id = user_id,
                      receiver_id = rid,
                      skill_offered = sanitize_string offered (Some 100),
                      skill_wanted = sanitize_string wanted (Some 100),
                      message = Some (sanitize_string message_text (Some 500)),
                      acceptance_message = None,
                      status = ''pending''\<rparr>
               in (Inr new_request, db\<lparr>swap_requests := swap_requests db @ [new_request]\<rparr>))"

definition get_swap_request :: "database \<Rightarrow> int \<Rightarrow> int \<Rightarrow> failure + swap_request" where
  "get_swap_request db user_id request_id =
     (case find (\<lambda>r. request_pk r = request_id) (swap_requests db) of
        None \<Rightarrow> Inl NotFound
      | Some r \<Rightarrow>
          if user_id \<notin> set [requester_id r, receiver_id r] then Inl Forbidden else Inr r)"

definition update_swap_request ::
  "database \<Rightarrow> int \<Rightarrow> int \<Rightarrow> string option \<Rightarrow> string option
     \<Rightarrow> (failure + swap_request) \<times> database" where
  "update_swap_request db user_id request_id new_status acceptanceMessage =
     (case find (\<lambda>r. request_pk r = request_id) (swap_requests db) of
        None \<Rightarrow> (Inl NotFound, db)
      | Some r \<Rightarrow>
          if \<not> can_be_updated_by r user_id then (Inl Forbidden, db)
          else
            let acceptance_text = strip (get_str acceptanceMessage) in
            case new_status of
              None \<Rightarrow> (Inl InvalidArgument, db)
            | Some target \<Rightarrow>
                if target \<notin> set valid_statuses then (Inl InvalidArgument, db)
                else if target \<in> set [''accepted'', ''rejected''] \<and> user_id \<noteq> receiver_id r
                  then (Inl Forbidden, db)
                else if target = ''cancelled'' \<and> user_id \<noteq> requester_id r
                  then (Inl Forbidden, db)
                else if swap_request.status r \<noteq> ''pending''
                  then (Inl (InvalidState (swap_request.status r)), db)
                else
                  let r1 = r\<lparr>status := target\<rparr>;
                      r2 = (if target \<in> set [''accepted'', ''rejected''] \<and> acceptance_text \<noteq> []
                            then r1\<lparr>acceptance_message :=
                                       Some (sanitize_string acceptance_text (Some 500))\<rparr>
                            else r1)
                  in (Inr r2,
                      db\<lparr>swap_requests :=
                            map (\<lambda>x. if request_pk x = request_id then r2 else x)
                                (swap_requests db)\<rparr>))"

definition delete_swap_request ::
  "database \<Rightarrow> int \<Rightarrow> int \<Rightarrow> (failure + unit) \<times> database" where
  "delete_swap_request db user_id request_id =
     (case find (\<lambda>r. request_pk r = request_id) (swap_requests db) of
        None \<Rightarrow> (Inl NotFound, db)
      | Some r \<Rightarrow>
          if user_id \<noteq> requester_id r then (Inl Forbidden, db)
          else (Inr (),
                db\<lparr>swap_requests :=
                      filter (\<lambda>x. request_pk x \<noteq> request_id) (swap_requests db)\<rparr>))"

section \<open>Skills (\<^verbatim>\<open>app/routes/skill_routes.py\<close>, \<^verbatim>\<open>app/routes/admin_routes.py\<close>)\<close>

text \<open>
  The column \<^verbatim>\<open>name\<close> of the skills table is declared \<^verbatim>\<open>unique=True\<close>: a commit that
  would leave two rows with one name raises, the handler's \<^verbatim>\<open>except Exception\<close> branch
  rolls back and answers 500.
\<close>

text \<open>
  The skill routes do not convert the identity of the token: \<^verbatim>\<open>user_id\<close> is the text
  that the login issued (\<^verbatim>\<open>str(user.id)\<close> in \<^verbatim>\<open>auth_routes.py\<close>). \<^verbatim>\<open>update_skill\<close> and
  \<^verbatim>\<open>delete_skill\<close> compare it with the Integer column \<^verbatim>\<open>created_by\<close>, which reads
  as a number or as \<^verbatim>\<open>None\<close>. The values that meet in that comparison are tagged with
  their Python type: values of different types are never equal. \<^verbatim>\<open>create_skill\<close> only
  writes the identity to the column; its argument is the number that the column then
  holds.
\<close>

datatype py_value = PyNone | PyInt int | PyStr string

definition column_value :: "int option \<Rightarrow> py_value" where
  "column_value c = (case c of None \<Rightarrow> PyNone | Some n \<Rightarrow> PyInt n)"

definition create_skill ::
  "database \<Rightarrow> int \<Rightarrow> string option \<Rightarrow> string option \<Rightarrow> string option
     \<Rightarrow> (failure + skill) \<times> database" where
  "create_skill db user_id name_in description_in category_in =
     (let nm = strip (get_str name_in);
          descr = strip (get_str description_in);
          cat = strip (get_str category_in)
      in if nm = [] then (Inl InvalidArgument, db)
         else if find (\<lambda>s. name s = nm) (skills db) \<noteq> None then (Inl Conflict, db)
         else
           let new_skill =
                 \<lparr>skill_pk = next_id (map skill_pk (skills db)),
                  name = sanitize_string nm (Some 100),
                  description = Some (sanitize_string descr (Some 500)),
                  category = Some (sanitize_string cat (Some 50)),
                  status = ''pending'',
                  rejection_reason = None,
                  created_by = Some user_id\<rparr>
           in if name new_skill \<in> set (map name (skills db)) then (Inl InternalError, db)
              else (Inr new_skill, db\<lparr>skills := skills db @ [new_skill]\<rparr>))"

definition get_skill_by_id :: "database \<Rightarrow> int \<Rightarrow> failure + skill" where
  "get_skill_by_id db skill_id =
     (case find (\<lambda>s. skill_pk s = skill_id \<and> skill.status s = ''approved'') (skills db) of
        None \<Rightarrow> Inl NotFound
      | Some s \<Rightarrow> Inr s)"

definition update_skill ::
  "database \<Rightarrow> string \<Rightarrow> int \<Rightarrow> string option \<Rightarrow> string option \<Rightarrow> string option
     \<Rightarrow> (failure + skill) \<times> database" where
  "update_skill db user_id skill_id name_in description_in category_in =
     (case find (\<lambda>s. skill_pk s = skill_id) (skills db) of
        None \<Rightarrow> (Inl NotFound, db)
      | Some s \<Rightarrow>
          if column_value (created_by s) \<noteq> PyStr user_id then (Inl Forbidden, db)
          else
            let s1 = (case name_in of
                        None \<Rightarrow> s
                      | Some n \<Rightarrow> if strip n \<noteq> [] then s\<lparr>name := sanitize_string n (Some 100)\<rparr>
                                  else s);
                s2 = (case description_in of
                        None \<Rightarrow> s1
                      | Some d \<Rightarrow> s1\<lparr>description := Some (sanitize_string d (Some 500))\<rparr>);
                s3 = (case category_in of
                        None \<Rightarrow> s2
                      | Some c \<Rightarrow> s2\<lparr>category := Some (sanitize_string c (Some 50))\<rparr>);
                s4 = s3\<lparr>skill.status := ''pending'', rejection_reason := None\<rparr>
            in if find (\<lambda>x. skill_pk x \<noteq> skill_id \<and> name x = name s4) (skills db) \<noteq> None
                 then (Inl InternalError, db)
               else (Inr s4,
                     db\<lparr>skills := map (\<lambda>x. if skill_pk x = skill_id then s4 else x)
                                       (skills db)\<rparr>))"

definition delete_skill ::
  "database \<Rightarrow> string \<Rightarrow> int \<Rightarrow> (failure + unit) \<times> database" where
  "delete_skill db user_id skill_id =
     (case find (\<lambda>s. skill_pk s = skill_id) (skills db) of
        None \<Rightarrow> (Inl NotFound, db)
      | Some s \<Rightarrow>
          if column_value (created_by s) \<noteq> PyStr user_id then (Inl Forbidden, db)
          else (Inr (), db\<lparr>skills := filter (\<lambda>x. skill_pk x \<noteq> skill_id) (skills db)\<rparr>))"

definition approve_skill :: "database \<Rightarrow> int \<Rightarrow> (failure + skill) \<times> database" where
  "approve_skill db skill_id =
     (case find (\<lambda>s. skill_pk s = skill_id) (skills db) of
        None \<Rightarrow> (Inl NotFound, db)
      | Some s \<Rightarrow>
          let s' = s\<lparr>skill.status := ''approved'', rejection_reason := None\<rparr>
          in (Inr s',
              db\<lparr>skills := map (\<lambda>x. if skill_pk x = skill_id then s' else x) (skills db)\<rparr>))"

definition reject_skill ::
  "database \<Rightarrow> int \<Rightarrow> string option \<Rightarrow> (failure + skill) \<times> database" where
  "reject_skill db skill_id reason_in =
     (let reason = strip (get_str reason_in)
      in if reason = [] then (Inl InvalidArgument, db)
         else case find (\<lambda>s. skill_pk s = skill_id) (skills db) of
                None \<Rightarrow> (Inl NotFound, db)
              | Some s \<Rightarrow>
                  let s' = s\<lparr>skill.status := ''rejected'',
                             rejection_reason := Some (sanitize_string reason (Some 500))\<rparr>
                  in (Inr s',
                      db\<lparr>skills := map (\<lambda>x. if skill_pk x = skill_id then s' else x)
                                        (skills db)\<rparr>))"

section \<open>Sequences of calls\<close>

text \<open>
  The calls that write to the store, one constructor per handler with the handler's
  arguments, and the store after one call and after a list of calls. \<open>trace\<close> keeps
  every store on the way, the first one included.
\<close>

datatype operation =
    CreateRequest int "int option" "string option" "string option" "string option"
  | UpdateRequest int int "string option" "string option"
  | DeleteRequest int int
  | CreateSkill int "string option" "string option" "string option"
  | UpdateSkill string int "string option" "string option" "string option"
  | DeleteSkill string int
  | ApproveSkill int
  | RejectSkill int "string option"

fun apply_op :: "database \<Rightarrow> operation \<Rightarrow> database" where
  "apply_op db (CreateRequest user_id receiverId skillOffered skillWanted msg) =
     snd (create_swap_request db user_id receiverId skillOffered skillWanted msg)"
| "apply_op db (UpdateRequest user_id request_id new_status msg) =
     snd (update_swap_request db user_id request_id new_status msg)"
| "apply_op db (DeleteRequest user_id request_id) =
     snd (delete_swap_request db user_id request_id)"
| "apply_op db (CreateSkill user_id name_in description_in category_in) =
     snd (create_skill db user_id name_in description_in category_in)"
| "apply_op db (UpdateSkill user_id skill_id name_in description_in category_in) =
     snd (update_skill db user_id skill_id name_in description_in category_in)"
| "apply_op db (DeleteSkill user_id skill_id) = snd (delete_skill db user_id skill_id)"
| "apply_op db (ApproveSkill skill_id) = snd (approve_skill db skill_id)"
| "apply_op db (RejectSkill skill_id reason_in) = snd (reject_skill db skill_id reason_in)"

fun run_ops :: "database \<Rightarrow> operation list \<Rightarrow> database" where
  "run_ops db [] = db"
| "run_ops db (c # cs) = run_ops (apply_op db c) cs"

fun trace :: "database \<Rightarrow> operation list \<Rightarrow> database list" where
  "trace db [] = [db]"
| "trace db (c # cs) = db # trace (apply_op db c) cs"

text \<open>
  The status of the request with key \<open>i\<close>, if the store has one; the four statuses
  of a request; the moves of the lifecycle (stay, or leave pending for one of the three
  resolved statuses); and the two properties that the store keeps of the requests
  table: keys are unique (the primary key), and every status is one of the four.
\<close>

definition status_of :: "database \<Rightarrow> int \<Rightarrow> string option" where
  "status_of db i =
     map_option swap_request.status (find (\<lambda>r. request_pk r = i) (swap_requests db))"

definition request_statuses :: "string list" where
  "request_statuses = ''pending'' # valid_statuses"

definition lifecycle_move :: "string \<Rightarrow> string \<Rightarrow> bool" where
  "lifecycle_move s s' = (s' = s \<or> (s = ''pending'' \<and> s' \<in> set valid_statuses))"

definition requests_ok :: "database \<Rightarrow> bool" where
  "requests_ok db =
     (distinct (map request_pk (swap_requests db)) \<and>
      list_all (\<lambda>r. swap_request.status r \<in> set request_statuses) (swap_requests db))"

text \<open>
  The four columns that the duplicate guard compares, and the property it is there for:
  no two pending requests agree on them. For the skills table: keys are unique (the
  primary key) and names are unique (the constraint on the column).
\<close>

definition request_key :: "swap_request \<Rightarrow> int \<times> int \<times> string \<times> string" where
  "request_key r = (requester_id r, receiver_id r, skill_offered r, skill_wanted r)"

definition pending_unique :: "database \<Rightarrow> bool" where
  "pending_unique db =
     distinct (map request_key
                 (filter (\<lambda>r. swap_request.status r = ''pending'') (swap_requests db)))"

definition skills_ok :: "database \<Rightarrow> bool" where
  "skills_ok db =
     (distinct (map skill_pk (skills db)) \<and> distinct (map name (skills db)))"

section \<open>A small store for the concrete instances\<close>

text \<open>
  Three users; the request of the first scenario (user 1 offers Python to user 2 and
  wants Guitar), once pending and once accepted; the skill of the fourth scenario.
\<close>

definition alice :: user where
  "alice = \<lparr>user_pk = 1, is_banned = False\<rparr>"

definition bob :: user where
  "bob = \<lparr>user_pk = 2, is_banned = False\<rparr>"

definition carol :: user where
  "carol = \<lparr>user_pk = 3, is_banned = False\<rparr>"

definition python_for_guitar :: swap_request where
  "python_for_guitar =
     \<lparr>request_pk = 1, requester_id = 1, receiver_id = 2,
      skill_offered = ''Python'', skill_wanted = ''Guitar'',
      message = Some ''Hello'', acceptance_message = None, status = ''pending''\<rparr>"

definition python_for_guitar_accepted :: swap_request where
  "python_for_guitar_accepted =
     \<lparr>request_pk = 1, requester_id = 1, receiver_id = 2,
      skill_offered = ''Python'', skill_wanted = ''Guitar'',
      message = Some ''Hello'', acceptance_message = Some ''Sure'', status = ''accepted''\<rparr>"

definition origami :: skill where
  "origami =
     \<lparr>skill_pk = 1, name = ''Origami'', description = Some ''Paper folding'',
      category = Some ''Crafts'', status = ''pending'', rejection_reason = None,
      created_by = Some 3\<rparr>"

definition origami_rejected :: skill where
  "origami_rejected =
     \<lparr>skill_pk = 1, name = ''Origami'', description = Some ''Paper folding'',
      category = Some ''Crafts'', status = ''rejected'',
      rejection_reason = Some ''too niche'', created_by = Some 3\<rparr>"

definition db_empty :: database where
  "db_empty = \<lparr>users = [alice, bob, carol], skills = [], swap_requests = []\<rparr>"

definition db_pending :: database where
  "db_pending =
     \<lparr>users = [alice, bob, carol], skills = [origami], swap_requests = [python_for_guitar]\<rparr>"

definition db_accepted :: database where
  "db_accepted =
     \<lparr>users = [alice, bob, carol], skills = [origami],
      swap_requests = [python_for_guitar_accepted]\<rparr>"

definition db_rejected :: database where
  "db_rejected =
     \<lparr>users = [alice, bob, carol], skills = [origami_rejected],
      swap_requests = [python_for_guitar]\<rparr>"

text \<open>
  A text of 101 letters, one more than the cap of a skill name and of an offered skill,
  and its first 100 letters; the skill and the requests that the handlers store for it.
\<close>

definition long_text :: string where
  "long_text = replicate 101 CHR ''a''"

definition cut_text :: string where
  "cut_text = replicate 100 CHR ''a''"

definition long_skill :: skill where
  "long_skill =
     \<lparr>skill_pk = 1, name = cut_text, description = Some [], category = Some [],
      status = ''pending'', rejection_reason = None, created_by = Some 3\<rparr>"

definition db_long_skill :: database where
  "db_long_skill = \<lparr>users = [alice, bob, carol], skills = [long_skill], swap_requests = []\<rparr>"

definition long_request :: swap_request where
  "long_request =
     \<lparr>request_pk = 1, requester_id = 1, receiver_id = 2,
      skill_offered = cut_text, skill_wanted = ''Guitar'',
      message = Some [], acceptance_message = None, status = ''pending''\<rparr>"

definition long_request_again :: swap_request where
  "long_request_again =
     \<lparr>request_pk = 2, requester_id = 1, receiver_id = 2,
      skill_offered = cut_text, skill_wanted = ''Guitar'',
      message = Some [], acceptance_message = None, status = ''pending''\<rparr>"

definition db_long_request :: database where
  "db_long_request =
     \<lparr>users = [alice, bob, carol], skills = [], swap_requests = [long_request]\<rparr>"

definition db_long_requests :: database where
  "db_long_requests =
     \<lparr>users = [alice, bob, carol], skills = [],
      swap_requests = [long_request, long_request_again]\<rparr>"

definition origami_approved :: skill where
  "origami_approved =
     \<lparr>skill_pk = 1, name = ''Origami'', description = Some ''Paper folding'',
      category = Some ''Crafts'', status = ''approved'', rejection_reason = None,
      created_by = Some 3\<rparr>"

definition db_approved :: database where
  "db_approved =
     \<lparr>users = [alice, bob, carol], skills = [origami_approved],
      swap_requests = [python_for_guitar]\<rparr>"

section \<open>Facts about the string helpers and the lookups\<close>

lemma strip_ends:
  assumes "strip s \<noteq> []"
  shows "\<not> isspace (hd (strip s))" and "\<not> isspace (last (strip s))"
proof -
  define t where "t = dropWhile isspace s"
  define u where "u = strip s"
  have ru: "rev u = dropWhile isspace (rev t)"
    by (simp add: u_def t_def strip_def)
  have une: "u \<noteq> []" using assms by (simp add: u_def)
  then have "rev u \<noteq> []" by simp
  then have "\<not> isspace (hd (rev u))"
    unfolding ru by (rule hd_dropWhile)
  then show "\<not> isspace (last (strip s))"
    using une by (simp add: hd_rev u_def)
  have "rev t = takeWhile isspace (rev t) @ rev u"
    by (simp add: ru)
  then have "rev (rev t) = rev (takeWhile isspace (rev t) @ rev u)"
    by simp
  then have t_eq: "t = u @ rev (takeWhile isspace (rev t))"
    by simp
  then have "t \<noteq> []" using une by auto
  then have "\<not> isspace (hd t)"
    unfolding t_def by (rule hd_dropWhile)
  moreover have "hd t = hd u"
    using t_eq une by (metis hd_append2)
  ultimately show "\<not> isspace (hd (strip s))"
    by (simp add: u_def)
qed

lemma strip_strip: "strip (strip s) = strip s"
proof (cases "strip s = []")
  case True
  have "strip [] = []" by (simp add: strip_def)
  with True show ?thesis by simp
next
  case False
  from strip_ends[OF False]
  have h: "\<not> isspace (hd (strip s))" and l: "\<not> isspace (last (strip s))" by simp_all
  have "dropWhile isspace (strip s) = strip s"
    using h by (simp add: dropWhile_eq_self_iff)
  moreover have "dropWhile isspace (rev (strip s)) = rev (strip s)"
    using l False by (simp add: dropWhile_eq_self_iff hd_rev)
  ultimately show ?thesis
    by (simp add: strip_def[of "strip s"])
qed

lemma sanitize_string_take: "0 < n \<Longrightarrow> sanitize_string v (Some n) = take n (strip v)"
  by (simp add: sanitize_string_def Let_def)

lemma sanitize_string_strip: "sanitize_string (strip v) m = sanitize_string v m"
  by (simp add: sanitize_string_def strip_strip)

lemma find_SomeD: "find P xs = Some x \<Longrightarrow> x \<in> set xs \<and> P x"
  by (auto simp: find_Some_iff)

lemma find_replace_by_pk:
  assumes "find (\<lambda>x. pk x = i) xs = Some y" and "pk y' = i"
  shows "find (\<lambda>x. pk x = i) (map (\<lambda>x. if pk x = i then y' else x) xs) = Some y'"
  using assms by (induction xs) (auto split: if_splits)

lemma find_db_pending:
  "find (\<lambda>x. request_pk x = 1) (swap_requests db_pending) = Some python_for_guitar"
  by (simp add: db_pending_def python_for_guitar_def)

lemma find_db_accepted:
  "find (\<lambda>x. request_pk x = 1) (swap_requests db_accepted) = Some python_for_guitar_accepted"
  by (simp add: db_accepted_def python_for_guitar_accepted_def)

lemma find_origami:
  "find (\<lambda>x. skill_pk x = 1) (skills db_pending) = Some origami"
  by (simp add: db_pending_def origami_def)

lemma find_origami_rejected:
  "find (\<lambda>x. skill_pk x = 1) (skills db_rejected) = Some origami_rejected"
  by (simp add: db_rejected_def origami_rejected_def)

lemma long_text_cut:
  "strip long_text = long_text" "take 100 long_text = cut_text" "long_text \<noteq> []"
  "strip cut_text = cut_text" "cut_text \<noteq> []" "long_text \<noteq> cut_text"
  "cut_text \<noteq> long_text" "length long_text = 101" "length cut_text = 100"
  by (simp_all add: long_text_def cut_text_def strip_def isspace_def)

section \<open>Transitions of a swap request\<close>

text \<open>
  What a successful \<^verbatim>\<open>PUT\<close> on a request has done: the target is one of the three
  valid statuses, the request was pending, and the stored row is the old one with the
  new status and, for accept and reject with a non-blank text, the acceptance message.
\<close>

lemma update_swap_request_success:
  assumes "find (\<lambda>x. request_pk x = request_id) (swap_requests db) = Some r"
      and "update_swap_request db user_id request_id new_status msg = (Inr r', db')"
  shows "\<exists>target. new_status = Some target \<and> target \<in> set valid_statuses \<and>
           swap_request.status r = ''pending'' \<and>
           r' = (if target \<in> set [''accepted'', ''rejected''] \<and> strip (get_str msg) \<noteq> []
                 then r\<lparr>swap_request.status := target,
                        acceptance_message := Some (take 500 (strip (get_str msg)))\<rparr>
                 else r\<lparr>swap_request.status := target\<rparr>) \<and>
           db' = db\<lparr>swap_requests :=
                       map (\<lambda>x. if request_pk x = request_id then r' else x) (swap_requests db)\<rparr>"
proof (cases new_status)
  case None
  with assms show ?thesis
    by (simp add: update_swap_request_def Let_def split: if_splits)
next
  case (Some target)
  with assms have "target \<in> set valid_statuses" "swap_request.status r = ''pending''"
    by (simp_all add: update_swap_request_def Let_def split: if_splits)
  moreover from Some assms have
    "r' = (if target \<in> set [''accepted'', ''rejected''] \<and> strip (get_str msg) \<noteq> []
                 then r\<lparr>swap_request.status := target,
                        acceptance_message := Some (take 500 (strip (get_str msg)))\<rparr>
                 else r\<lparr>swap_request.status := target\<rparr>)"
    by (auto simp add: update_swap_request_def Let_def sanitize_string_strip sanitize_string_take
             split: if_splits)
  moreover from Some assms have
    "db' = db\<lparr>swap_requests :=
                       map (\<lambda>x. if request_pk x = request_id then r' else x) (swap_requests db)\<rparr>"
    by (auto simp add: update_swap_request_def Let_def split: if_splits)
  ultimately show ?thesis using Some by blast
qed

lemma next_id_fresh: "next_id ids \<notin> set ids"
proof -
  have "\<And>x. x \<in> set ids \<Longrightarrow> x \<le> foldr max ids 0"
    by (induction ids) (auto simp: le_max_iff_disj)
  then show ?thesis
    by (fastforce simp: next_id_def)
qed

lemma find_append_Some: "find P xs = Some x \<Longrightarrow> find P (xs @ ys) = Some x"
  by (induction xs) (auto split: if_splits)

lemma find_replace_other:
  assumes "pk y' = j" and "i \<noteq> j"
  shows "find (\<lambda>x. pk x = i) (map (\<lambda>x. if pk x = j then y' else x) xs) = find (\<lambda>x. pk x = i) xs"
  using assms by (induction xs) auto

lemma find_filter_other:
  "i \<noteq> j \<Longrightarrow> find (\<lambda>x. pk x = i) (filter (\<lambda>x. pk x \<noteq> j) xs) = find (\<lambda>x. pk x = i) xs"
  by (induction xs) auto

lemma find_filter_same:
  "find (\<lambda>x. pk x = j) (filter (\<lambda>x. pk x \<noteq> j) xs) = None"
  by (induction xs) auto

lemma map_pk_replace:
  "pk y' = j \<Longrightarrow> map pk (map (\<lambda>x. if pk x = j then y' else x) xs) = map pk xs"
  by (induction xs) auto

lemma create_swap_request_success:
  assumes "create_swap_request db user_id receiverId skillOffered skillWanted msg = (Inr r, db')"
  shows "request_pk r = next_id (map request_pk (swap_requests db))"
    and "requester_id r = user_id"
    and "receiverId = Some (receiver_id r)"
    and "skill_offered r = take 100 (strip (get_str skillOffered))"
    and "skill_wanted r = take 100 (strip (get_str skillWanted))"
    and "message r = Some (take 500 (strip (get_str msg)))"
    and "acceptance_message r = None"
    and "swap_request.status r = ''pending''"
    and "db' = db\<lparr>swap_requests := swap_requests db @ [r]\<rparr>"
  using assms
  by (auto simp: create_swap_request_def Let_def sanitize_string_strip sanitize_string_take
           split: option.splits if_splits)


lemma create_swap_request_failure:
  "create_swap_request db user_id receiverId skillOffered skillWanted msg = (Inl e, db')
     \<Longrightarrow> db' = db"
  by (auto simp: create_swap_request_def Let_def split: option.splits if_splits)

lemma update_swap_request_failure:
  "update_swap_request db user_id request_id new_status msg = (Inl e, db') \<Longrightarrow> db' = db"
  by (auto simp: update_swap_request_def Let_def split: option.splits if_splits)

lemma update_swap_request_found:
  "update_swap_request db user_id request_id new_status msg = (Inr r', db')
     \<Longrightarrow> \<exists>r. find (\<lambda>x. request_pk x = request_id) (swap_requests db) = Some r"
  by (auto simp: update_swap_request_def Let_def split: option.splits if_splits)

lemma delete_swap_request_result:
  "snd (delete_swap_request db user_id request_id) = db \<or>
   snd (delete_swap_request db user_id request_id) =
     db\<lparr>swap_requests := filter (\<lambda>x. request_pk x \<noteq> request_id) (swap_requests db)\<rparr>"
  by (auto simp: delete_swap_request_def split: option.splits)

lemma skill_calls_keep_requests:
  "swap_requests (snd (create_skill db user_id name_in description_in category_in)) =
     swap_requests db"
  "swap_requests (snd (update_skill db identity skill_id name_in description_in category_in)) =
     swap_requests db"
  "swap_requests (snd (delete_skill db identity skill_id)) = swap_requests db"
  "swap_requests (snd (approve_skill db skill_id)) = swap_requests db"
  "swap_requests (snd (reject_skill db skill_id reason_in)) = swap_requests db"
  by (auto simp: create_skill_def update_skill_def delete_skill_def approve_skill_def
                 reject_skill_def Let_def split: option.splits)

lemma create_swap_request_requests_ok:
  assumes "requests_ok db"
  shows "requests_ok (snd (create_swap_request db user_id receiverId skillOffered skillWanted msg))"
proof (cases "create_swap_request db user_id receiverId skillOffered skillWanted msg")
  case (Pair res db')
  show ?thesis
  proof (cases res)
    case (Inl e)
    with Pair assms show ?thesis
      by (auto dest: create_swap_request_failure)
  next
    case (Inr r)
    with Pair have run: "create_swap_request db user_id receiverId skillOffered skillWanted msg
        = (Inr r, db')" by simp
    note facts = create_swap_request_success[OF run]
    have "request_pk r \<notin> set (map request_pk (swap_requests db))"
      unfolding facts(1) by (rule next_id_fresh)
    with assms facts(8,9) Pair show ?thesis
      by (simp add: requests_ok_def request_statuses_def)
  qed
qed

lemma update_swap_request_requests_ok:
  assumes "requests_ok db"
  shows "requests_ok (snd (update_swap_request db user_id request_id new_status msg))"
proof (cases "update_swap_request db user_id request_id new_status msg")
  case (Pair res db')
  show ?thesis
  proof (cases res)
    case (Inl e)
    with Pair assms show ?thesis
      by (auto dest: update_swap_request_failure)
  next
    case (Inr r')
    with Pair have run: "update_swap_request db user_id request_id new_status msg = (Inr r', db')"
      by simp
    from update_swap_request_found[OF run] obtain r where
      f: "find (\<lambda>x. request_pk x = request_id) (swap_requests db) = Some r" by blast
    from update_swap_request_success[OF f run] obtain target where
      t: "target \<in> set valid_statuses"
      and r': "r' = (if target \<in> set [''accepted'', ''rejected''] \<and> strip (get_str msg) \<noteq> []
                 then r\<lparr>swap_request.status := target,
                        acceptance_message := Some (take 500 (strip (get_str msg)))\<rparr>
                 else r\<lparr>swap_request.status := target\<rparr>)"
      and db': "db' = db\<lparr>swap_requests :=
                       map (\<lambda>x. if request_pk x = request_id then r' else x) (swap_requests db)\<rparr>"
      by blast
    from f have "request_pk r = request_id" by (auto dest: find_SomeD)
    then have pk: "request_pk r' = request_id" by (simp add: r')
    have st: "swap_request.status r' \<in> set request_statuses"
      using t by (simp add: r' request_statuses_def)
    have rows: "swap_requests db' =
        map (\<lambda>x. if request_pk x = request_id then r' else x) (swap_requests db)"
      by (simp add: db')
    have "distinct (map request_pk (swap_requests db'))"
      unfolding rows map_pk_replace[of request_pk, OF pk]
      using assms by (simp add: requests_ok_def)
    moreover have "list_all (\<lambda>x. swap_request.status x \<in> set request_statuses)
                     (swap_requests db')"
      using assms st by (auto simp: db' requests_ok_def list_all_iff)
    ultimately show ?thesis using Pair by (simp add: requests_ok_def)
  qed
qed

lemma delete_swap_request_requests_ok:
  assumes "requests_ok db"
  shows "requests_ok (snd (delete_swap_request db user_id request_id))"
  using assms delete_swap_request_result[of db user_id request_id]
  by (auto simp: requests_ok_def distinct_map_filter list_all_iff)

lemma apply_op_requests_ok: "requests_ok db \<Longrightarrow> requests_ok (apply_op db c)"
  by (cases c)
     (simp_all add: create_swap_request_requests_ok update_swap_request_requests_ok
                    delete_swap_request_requests_ok,
      simp_all add: requests_ok_def skill_calls_keep_requests)

lemma run_ops_requests_ok: "requests_ok db \<Longrightarrow> requests_ok (run_ops db cs)"
  by (induction cs arbitrary: db) (simp_all add: apply_op_requests_ok)


lemma find_append_None: "find P xs = None \<Longrightarrow> find P (xs @ ys) = find P ys"
  by (induction xs) (auto split: if_splits)

lemma status_of_create:
  assumes "status_of db i = Some s"
  shows "status_of (snd (create_swap_request db user_id receiverId skillOffered skillWanted msg)) i
           = Some s"
proof (cases "create_swap_request db user_id receiverId skillOffered skillWanted msg")
  case (Pair res db')
  show ?thesis
  proof (cases res)
    case (Inl e)
    with Pair assms show ?thesis by (auto dest: create_swap_request_failure)
  next
    case (Inr r)
    with Pair have "db' = db\<lparr>swap_requests := swap_requests db @ [r]\<rparr>"
      by (simp add: create_swap_request_success(9))
    with Pair assms show ?thesis
      by (auto simp: status_of_def find_append_Some)
  qed
qed

lemma status_of_update:
  assumes "status_of db i = Some s"
      and "status_of (snd (update_swap_request db user_id request_id new_status msg)) i = Some s'"
  shows "lifecycle_move s s'"
proof (cases "update_swap_request db user_id request_id new_status msg")
  case (Pair res db')
  show ?thesis
  proof (cases res)
    case (Inl e)
    with Pair have "db' = db" by (auto dest: update_swap_request_failure)
    with Pair assms show ?thesis by (simp add: lifecycle_move_def)
  next
    case (Inr r')
    with Pair have run: "update_swap_request db user_id request_id new_status msg = (Inr r', db')"
      by simp
    from update_swap_request_found[OF run] obtain r where
      f: "find (\<lambda>x. request_pk x = request_id) (swap_requests db) = Some r" by blast
    from update_swap_request_success[OF f run] obtain target where
      t: "target \<in> set valid_statuses" "swap_request.status r = ''pending''"
      and r': "r' = (if target \<in> set [''accepted'', ''rejected''] \<and> strip (get_str msg) \<noteq> []
                 then r\<lparr>swap_request.status := target,
                        acceptance_message := Some (take 500 (strip (get_str msg)))\<rparr>
                 else r\<lparr>swap_request.status := target\<rparr>)"
      and db': "db' = db\<lparr>swap_requests :=
                       map (\<lambda>x. if request_pk x = request_id then r' else x) (swap_requests db)\<rparr>"
      by blast
    from f have "request_pk r = request_id" by (auto dest: find_SomeD)
    then have pk: "request_pk r' = request_id" by (simp add: r')
    have st: "swap_request.status r' = target" by (simp add: r')
    have rows: "swap_requests db' =
        map (\<lambda>x. if request_pk x = request_id then r' else x) (swap_requests db)"
      by (simp add: db')
    show ?thesis
    proof (cases "i = request_id")
      case True
      have "find (\<lambda>x. request_pk x = i) (swap_requests db') = Some r'"
        unfolding rows True by (rule find_replace_by_pk[OF f pk])
      with assms Pair f True t st show ?thesis
        by (simp add: status_of_def lifecycle_move_def)
    next
      case False
      have "find (\<lambda>x. request_pk x = i) (swap_requests db') =
            find (\<lambda>x. request_pk x = i) (swap_requests db)"
        unfolding rows by (rule find_replace_other[of request_pk, OF pk False])
      with assms Pair show ?thesis
        by (auto simp add: status_of_def lifecycle_move_def)
    qed
  qed
qed

lemma status_of_delete:
  assumes "status_of db i = Some s"
      and "status_of (snd (delete_swap_request db user_id request_id)) i = Some s'"
  shows "s' = s"
proof (cases "i = request_id")
  case True
  with assms delete_swap_request_result[of db user_id request_id] show ?thesis
    by (auto simp: status_of_def find_filter_same)
next
  case False
  with assms delete_swap_request_result[of db user_id request_id] show ?thesis
    by (auto simp: status_of_def find_filter_other)
qed

lemma status_of_step:
  assumes "status_of db i = Some s" and "status_of (apply_op db c) i = Some s'"
  shows "lifecycle_move s s'"
proof (cases c)
  case (CreateRequest user_id receiverId skillOffered skillWanted msg)
  with assms status_of_create[OF assms(1), of user_id receiverId skillOffered skillWanted msg]
  show ?thesis by (simp add: lifecycle_move_def)
next
  case (UpdateRequest user_id request_id new_status msg)
  with assms show ?thesis by (auto intro: status_of_update)
next
  case (DeleteRequest user_id request_id)
  with assms have "s' = s" by (auto dest: status_of_delete)
  then show ?thesis by (simp add: lifecycle_move_def)
qed (use assms in \<open>auto simp add: status_of_def skill_calls_keep_requests lifecycle_move_def\<close>)

lemma lifecycle_move_trans:
  "lifecycle_move s t \<Longrightarrow> lifecycle_move t u \<Longrightarrow> lifecycle_move s u"
  by (auto simp: lifecycle_move_def valid_statuses_def)

lemma trace_head: "list_all P (trace db cs) \<Longrightarrow> P db"
  by (cases cs) simp_all

lemma status_of_run:
  assumes "list_all (\<lambda>d. status_of d i \<noteq> None) (trace db cs)"
      and "status_of db i = Some s" and "status_of (run_ops db cs) i = Some s'"
  shows "lifecycle_move s s'"
  using assms
proof (induction cs arbitrary: db s)
  case Nil
  then show ?case by (simp add: lifecycle_move_def)
next
  case (Cons c cs)
  from Cons.prems(1) have rest: "list_all (\<lambda>d. status_of d i \<noteq> None) (trace (apply_op db c) cs)"
    by simp
  from trace_head[OF rest] obtain t where t: "status_of (apply_op db c) i = Some t"
    by auto
  from status_of_step[OF Cons.prems(2) t] have "lifecycle_move s t" .
  moreover from Cons.IH[OF rest t] Cons.prems(3) have "lifecycle_move t s'" by simp
  ultimately show ?case by (rule lifecycle_move_trans)
qed

lemma status_of_new:
  assumes "status_of db i = None" and "status_of (apply_op db c) i = Some s'"
  shows "s' = ''pending''"
proof (cases c)
  case (CreateRequest user_id receiverId skillOffered skillWanted msg)
  show ?thesis
  proof (cases "create_swap_request db user_id receiverId skillOffered skillWanted msg")
    case (Pair res db')
    show ?thesis
    proof (cases res)
      case (Inl e)
      with Pair have "db' = db" by (auto dest: create_swap_request_failure)
      with Pair assms CreateRequest show ?thesis by simp
    next
      case (Inr r)
      with Pair have run: "create_swap_request db user_id receiverId skillOffered skillWanted msg
        = (Inr r, db')" by simp
      note facts = create_swap_request_success[OF run]
      from assms(1) have "find (\<lambda>x. request_pk x = i) (swap_requests db) = None"
        by (simp add: status_of_def)
      then have "find (\<lambda>x. request_pk x = i) (swap_requests db') =
                 find (\<lambda>x. request_pk x = i) [r]"
        by (simp add: facts(9) find_append_None)
      with assms(2) CreateRequest Pair facts(8) show ?thesis
        by (simp add: status_of_def split: if_splits)
    qed
  qed
next
  case (UpdateRequest user_id request_id new_status msg)
  show ?thesis
  proof (cases "update_swap_request db user_id request_id new_status msg")
    case (Pair res db')
    show ?thesis
    proof (cases res)
      case (Inl e)
      with Pair have "db' = db" by (auto dest: update_swap_request_failure)
      with Pair assms UpdateRequest show ?thesis by simp
    next
      case (Inr r')
      with Pair have run:
        "update_swap_request db user_id request_id new_status msg = (Inr r', db')" by simp
      from update_swap_request_found[OF run] obtain r where
        f: "find (\<lambda>x. request_pk x = request_id) (swap_requests db) = Some r" by blast
      with assms(1) have ne: "i \<noteq> request_id" by (auto simp: status_of_def)
      from update_swap_request_success[OF f run] have
        rows: "swap_requests db' =
          map (\<lambda>x. if request_pk x = request_id then r' else x) (swap_requests db)"
        and r': "request_pk r' = request_pk r"
        by auto
      from f have "request_pk r = request_id" by (auto dest: find_SomeD)
      with r' have pk: "request_pk r' = request_id" by simp
      have "find (\<lambda>x. request_pk x = i) (swap_requests db') =
            find (\<lambda>x. request_pk x = i) (swap_requests db)"
        unfolding rows by (rule find_replace_other[of request_pk, OF pk ne])
      with assms UpdateRequest Pair show ?thesis by (simp add: status_of_def)
    qed
  qed
next
  case (DeleteRequest user_id request_id)
  with assms delete_swap_request_result[of db user_id request_id] show ?thesis
    by (cases "i = request_id") (auto simp: status_of_def find_filter_same find_filter_other)
qed (use assms in \<open>simp_all add: status_of_def skill_calls_keep_requests\<close>)


section \<open>The duplicate guard\<close>

text \<open>
  Claim C1 says that no two pending requests ever carry the same requester, receiver,
  offered skill and wanted skill. The handler looks for a pending duplicate of the
  trimmed texts, and then stores the texts cut to 100 characters. For an offered skill of
  101 letters the lookup finds nothing, also the second time, and the store ends with
  two pending requests that agree on all four.
\<close>

theorem create_swap_request_duplicate_after_cut:
  "create_swap_request db_empty 1 (Some 2) (Some long_text) (Some ''Guitar'') None =
     (Inr long_request, db_long_request)
   \<and> create_swap_request db_long_request 1 (Some 2) (Some long_text) (Some ''Guitar'') None =
     (Inr long_request_again, db_long_requests)
   \<and> swap_requests db_long_requests = [long_request, long_request_again]
   \<and> request_pk long_request \<noteq> request_pk long_request_again
   \<and> requester_id long_request = requester_id long_request_again
   \<and> receiver_id long_request = receiver_id long_request_again
   \<and> skill_offered long_request = skill_offered long_request_again
   \<and> skill_wanted long_request = skill_wanted long_request_again
   \<and> swap_request.status long_request = ''pending''
   \<and> swap_request.status long_request_again = ''pending''"
proof -
  have g: "strip ''Guitar'' = ''Guitar''" "strip [] = []"
    by (simp_all add: strip_def isspace_def)
  have first: "create_swap_request db_empty 1 (Some 2) (Some long_text) (Some ''Guitar'') None =
     (Inr long_request, db_long_request)"
    by (simp add: create_swap_request_def db_empty_def db_long_request_def long_request_def
                  alice_def bob_def carol_def get_str_def long_text_cut g
                  sanitize_string_def next_id_def Let_def)
  have second:
    "create_swap_request db_long_request 1 (Some 2) (Some long_text) (Some ''Guitar'') None =
     (Inr long_request_again, db_long_requests)"
    by (simp add: create_swap_request_def db_long_request_def db_long_requests_def
                  long_request_def long_request_again_def
                  alice_def bob_def carol_def get_str_def long_text_cut g
                  sanitize_string_def next_id_def Let_def)
  from first second show ?thesis
    by (simp add: db_long_requests_def long_request_def long_request_again_def)
qed

section \<open>The lifecycle of a request\<close>

text \<open>
  Claim C2: in every store reached by any list of calls, every request has one of the
  four statuses pending, accepted, rejected, cancelled. Along any list of calls during
  which the request with key \<open>i\<close> stays in the store, its status either stays what it
  was or moves from pending to one of accepted, rejected, cancelled; so a status other
  than pending never changes again. A request that a call adds to the store is pending.
\<close>

theorem request_status_lifecycle:
  assumes "requests_ok db"
  shows "list_all (\<lambda>r. swap_request.status r \<in>
                       {''pending'', ''accepted'', ''rejected'', ''cancelled''})
           (swap_requests (run_ops db cs))
     \<and> (list_all (\<lambda>d. status_of d i \<noteq> None) (trace db cs) \<and>
        status_of db i = Some s \<and> status_of (run_ops db cs) i = Some s' \<longrightarrow>
          (s' = s \<or> (s = ''pending'' \<and> s' \<in> {''accepted'', ''rejected'', ''cancelled''})) \<and>
          (s \<noteq> ''pending'' \<longrightarrow> s' = s))
     \<and> (status_of db i = None \<and> status_of (apply_op db c) i = Some s' \<longrightarrow> s' = ''pending'')"
proof -
  from run_ops_requests_ok[OF assms, of cs]
  have a: "list_all (\<lambda>r. swap_request.status r \<in>
                       {''pending'', ''accepted'', ''rejected'', ''cancelled''})
           (swap_requests (run_ops db cs))"
    by (simp add: requests_ok_def request_statuses_def valid_statuses_def)
  have b: "(s' = s \<or> (s = ''pending'' \<and> s' \<in> {''accepted'', ''rejected'', ''cancelled''})) \<and>
          (s \<noteq> ''pending'' \<longrightarrow> s' = s)"
    if "list_all (\<lambda>d. status_of d i \<noteq> None) (trace db cs)"
      and "status_of db i = Some s" and "status_of (run_ops db cs) i = Some s'"
    using status_of_run[OF that]
    by (auto simp: lifecycle_move_def valid_statuses_def)
  have c: "s' = ''pending''"
    if "status_of db i = None" and "status_of (apply_op db c) i = Some s'"
    using that by (rule status_of_new)
  from a b c show ?thesis by blast
qed

theorem request_status_lifecycle_witness:
  "requests_ok db_pending
   \<and> run_ops db_pending [UpdateRequest 2 1 (Some ''accepted'') (Some '' Sure ''),
                          UpdateRequest 2 1 (Some ''rejected'') None,
                          UpdateRequest 1 1 (Some ''pending'') None,
                          UpdateRequest 1 1 (Some ''cancelled'') None] = db_accepted
   \<and> status_of db_pending 1 = Some ''pending''
   \<and> status_of db_accepted 1 = Some ''accepted''
   \<and> list_all (\<lambda>r. swap_request.status r \<in>
                      {''pending'', ''accepted'', ''rejected'', ''cancelled''})
         (swap_requests db_accepted)
   \<and> status_of db_empty 1 = None
   \<and> status_of (apply_op db_empty
         (CreateRequest 1 (Some 2) (Some ''Python'') (Some ''Guitar'') (Some ''Hello''))) 1
       = Some ''pending''"
proof -
  let ?cs = "[UpdateRequest 2 1 (Some ''accepted'') (Some '' Sure ''),
              UpdateRequest 2 1 (Some ''rejected'') None,
              UpdateRequest 1 1 (Some ''pending'') None,
              UpdateRequest 1 1 (Some ''cancelled'') None]"
  have ok: "requests_ok db_pending"
    by (simp add: requests_ok_def db_pending_def python_for_guitar_def request_statuses_def
                  valid_statuses_def)
  have step1: "update_swap_request db_pending 2 1 (Some ''accepted'') (Some '' Sure '') =
     (Inr python_for_guitar_accepted, db_accepted)"
    by (simp add: update_swap_request_def db_pending_def db_accepted_def python_for_guitar_def
                  python_for_guitar_accepted_def can_be_updated_by_def valid_statuses_def
                  get_str_def strip_def isspace_def sanitize_string_def Let_def)
  have step2: "snd (update_swap_request db_accepted 2 1 (Some ''rejected'') None) = db_accepted"
    and step3: "snd (update_swap_request db_accepted 1 1 (Some ''pending'') None) = db_accepted"
    and step4: "snd (update_swap_request db_accepted 1 1 (Some ''cancelled'') None) = db_accepted"
    by (simp_all add: update_swap_request_def db_accepted_def
                  python_for_guitar_accepted_def can_be_updated_by_def valid_statuses_def
                  get_str_def strip_def Let_def)
  have run: "run_ops db_pending ?cs = db_accepted"
    by (simp add: step1 step2 step3 step4)
  have tr: "trace db_pending ?cs =
      [db_pending, db_accepted, db_accepted, db_accepted, db_accepted]"
    by (simp add: step1 step2 step3 step4)
  have s0: "status_of db_pending 1 = Some ''pending''"
    by (simp add: status_of_def db_pending_def python_for_guitar_def)
  have s1: "status_of db_accepted 1 = Some ''accepted''"
    by (simp add: status_of_def db_accepted_def python_for_guitar_accepted_def)
  have present: "list_all (\<lambda>d. status_of d 1 \<noteq> None) (trace db_pending ?cs)"
    unfolding tr by (simp add: s0 s1)
  have e0: "status_of db_empty 1 = None"
    by (simp add: status_of_def db_empty_def)
  have e1: "status_of (apply_op db_empty
         (CreateRequest 1 (Some 2) (Some ''Python'') (Some ''Guitar'') (Some ''Hello''))) 1
       = Some ''pending''"
    by (simp add: status_of_def db_empty_def create_swap_request_def alice_def bob_def carol_def
                  get_str_def strip_def isspace_def sanitize_string_def next_id_def Let_def)
  from request_status_lifecycle[OF ok, of ?cs 1 "''pending''" "''accepted''"
         "CreateRequest 1 (Some 2) (Some ''Python'') (Some ''Guitar'') (Some ''Hello'')"]
       ok run s0 s1 present e0 e1
  show ?thesis by simp
qed

text \<open>
  Claim C3, as the spec words it: a transition of a request that is no longer pending
  fails with \<open>InvalidState\<close> whoever the actor is. The handler checks the actor before
  it looks at the status, so the requester who asks to accept an accepted request is
  answered \<open>Forbidden\<close>.
\<close>

theorem update_swap_request_resolved_counterexample:
  "swap_requests db_accepted = [python_for_guitar_accepted]
   \<and> swap_request.status python_for_guitar_accepted = ''accepted''
   \<and> requester_id python_for_guitar_accepted = 1
   \<and> update_swap_request db_accepted 1 1 (Some ''accepted'') None = (Inl Forbidden, db_accepted)"
  by (simp add: update_swap_request_def db_accepted_def python_for_guitar_accepted_def
                can_be_updated_by_def valid_statuses_def get_str_def Let_def)

text \<open>
  Claim C3, amended: for a request that is no longer pending and a target among
  accepted, rejected and cancelled, the transition fails with \<open>InvalidState\<close> of the
  current status when the actor is the one the target is reserved to (the receiver for
  accepted and rejected, the requester for cancelled), and with \<open>Forbidden\<close> for every
  other actor; the store is unchanged in both cases.
\<close>

theorem update_swap_request_resolved:
  assumes "find (\<lambda>x. request_pk x = request_id) (swap_requests db) = Some r"
      and "swap_request.status r \<noteq> ''pending''"
      and "target \<in> set valid_statuses"
  shows "update_swap_request db user_id request_id (Some target) msg =
           (if (target = ''cancelled'' \<and> user_id = requester_id r) \<or>
               (target \<noteq> ''cancelled'' \<and> user_id = receiver_id r)
            then (Inl (InvalidState (swap_request.status r)), db)
            else (Inl Forbidden, db))"
  using assms
  by (auto simp: update_swap_request_def valid_statuses_def can_be_updated_by_def Let_def)

theorem update_swap_request_resolved_witness:
  "update_swap_request db_accepted 2 1 (Some ''rejected'') (Some ''No'') =
     (Inl (InvalidState ''accepted''), db_accepted)
   \<and> update_swap_request db_accepted 1 1 (Some ''cancelled'') None =
     (Inl (InvalidState ''accepted''), db_accepted)
   \<and> update_swap_request db_accepted 3 1 (Some ''rejected'') None = (Inl Forbidden, db_accepted)"
proof -
  have st: "swap_request.status python_for_guitar_accepted \<noteq> ''pending''"
    by (simp add: python_for_guitar_accepted_def)
  have v: "''rejected'' \<in> set valid_statuses" "''cancelled'' \<in> set valid_statuses"
    by (simp_all add: valid_statuses_def)
  from update_swap_request_resolved[OF find_db_accepted st v(1), of 2 "Some ''No''"]
       update_swap_request_resolved[OF find_db_accepted st v(2), of 1 None]
       update_swap_request_resolved[OF find_db_accepted st v(1), of 3 None]
  show ?thesis
    by (simp add: python_for_guitar_accepted_def)
qed

text \<open>
  Claim C4: whatever the status of the request, a transition to accepted or rejected
  asked by anyone but the receiver fails with \<open>Forbidden\<close>, and a transition to
  cancelled asked by anyone but the requester fails with \<open>Forbidden\<close>; the store is
  unchanged.
\<close>

theorem update_swap_request_wrong_actor_forbidden:
  assumes "find (\<lambda>x. request_pk x = request_id) (swap_requests db) = Some r"
  shows "(target \<in> {''accepted'', ''rejected''} \<and> user_id \<noteq> receiver_id r \<longrightarrow>
            update_swap_request db user_id request_id (Some target) msg = (Inl Forbidden, db))
       \<and> (target = ''cancelled'' \<and> user_id \<noteq> requester_id r \<longrightarrow>
            update_swap_request db user_id request_id (Some target) msg = (Inl Forbidden, db))"
  using assms
  by (auto simp: update_swap_request_def valid_statuses_def can_be_updated_by_def Let_def)

theorem update_swap_request_wrong_actor_forbidden_witness:
  "update_swap_request db_pending 1 1 (Some ''accepted'') None = (Inl Forbidden, db_pending)
   \<and> update_swap_request db_pending 2 1 (Some ''cancelled'') None = (Inl Forbidden, db_pending)
   \<and> update_swap_request db_accepted 3 1 (Some ''rejected'') None = (Inl Forbidden, db_accepted)"
  using update_swap_request_wrong_actor_forbidden[OF find_db_pending, of "''accepted''" 1 None]
        update_swap_request_wrong_actor_forbidden[OF find_db_pending, of "''cancelled''" 2 None]
        update_swap_request_wrong_actor_forbidden[OF find_db_accepted, of "''rejected''" 3 None]
  by (simp add: python_for_guitar_def python_for_guitar_accepted_def)

text \<open>
  Claim C9: a successful transition of a pending request sets the status to the target;
  the key, requester, receiver, offered skill, wanted skill and message of the request
  are as before; the acceptance message is as before on a cancel and whenever the text
  supplied is blank, and is otherwise the supplied text, trimmed and cut to 500
  characters. Every other row of the store is as before.
\<close>

theorem update_swap_request_frame:
  assumes "find (\<lambda>x. request_pk x = request_id) (swap_requests db) = Some r"
      and "update_swap_request db user_id request_id new_status msg = (Inr r', db')"
  shows "swap_request.status r = ''pending''
     \<and> new_status = Some (swap_request.status r')
     \<and> swap_request.status r' \<in> {''accepted'', ''rejected'', ''cancelled''}
     \<and> request_pk r' = request_pk r
     \<and> requester_id r' = requester_id r
     \<and> receiver_id r' = receiver_id r
     \<and> skill_offered r' = skill_offered r
     \<and> skill_wanted r' = skill_wanted r
     \<and> message r' = message r
     \<and> (swap_request.status r' = ''cancelled'' \<or> strip (get_str msg) = [] \<longrightarrow>
           acceptance_message r' = acceptance_message r)
     \<and> (swap_request.status r' \<noteq> ''cancelled'' \<and> strip (get_str msg) \<noteq> [] \<longrightarrow>
           acceptance_message r' = Some (take 500 (strip (get_str msg))))
     \<and> swap_requests db' =
           map (\<lambda>x. if request_pk x = request_id then r' else x) (swap_requests db)
     \<and> users db' = users db
     \<and> skills db' = skills db"
proof -
  from update_swap_request_success[OF assms] obtain target where
    t: "new_status = Some target" "target \<in> set valid_statuses"
       "swap_request.status r = ''pending''"
    and r': "r' = (if target \<in> set [''accepted'', ''rejected''] \<and> strip (get_str msg) \<noteq> []
                 then r\<lparr>swap_request.status := target,
                        acceptance_message := Some (take 500 (strip (get_str msg)))\<rparr>
                 else r\<lparr>swap_request.status := target\<rparr>)"
    and db': "db' = db\<lparr>swap_requests :=
                       map (\<lambda>x. if request_pk x = request_id then r' else x) (swap_requests db)\<rparr>"
    by blast
  have st: "swap_request.status r' = target"
    by (simp add: r')
  from t(2) have tv: "target = ''accepted'' \<or> target = ''rejected'' \<or> target = ''cancelled''"
    by (simp add: valid_statuses_def)
  have frame: "request_pk r' = request_pk r" "requester_id r' = requester_id r"
    "receiver_id r' = receiver_id r" "skill_offered r' = skill_offered r"
    "skill_wanted r' = skill_wanted r" "message r' = message r"
    by (simp_all add: r')
  have am1: "swap_request.status r' = ''cancelled'' \<or> strip (get_str msg) = [] \<longrightarrow>
           acceptance_message r' = acceptance_message r"
    unfolding st by (auto simp add: r')
  have am2: "swap_request.status r' \<noteq> ''cancelled'' \<and> strip (get_str msg) \<noteq> [] \<longrightarrow>
           acceptance_message r' = Some (take 500 (strip (get_str msg)))"
    unfolding st using tv by (auto simp add: r')
  have dbs: "swap_requests db' =
           map (\<lambda>x. if request_pk x = request_id then r' else x) (swap_requests db)"
    "users db' = users db" "skills db' = skills db"
    by (simp_all add: db')
  from t(1,3) st tv frame am1 am2 dbs show ?thesis
    by simp
qed

theorem update_swap_request_frame_witness:
  "update_swap_request db_pending 2 1 (Some ''accepted'') (Some '' Sure '') =
     (Inr python_for_guitar_accepted, db_accepted)
   \<and> requester_id python_for_guitar_accepted = requester_id python_for_guitar
   \<and> receiver_id python_for_guitar_accepted = receiver_id python_for_guitar
   \<and> skill_offered python_for_guitar_accepted = skill_offered python_for_guitar
   \<and> skill_wanted python_for_guitar_accepted = skill_wanted python_for_guitar
   \<and> message python_for_guitar_accepted = message python_for_guitar
   \<and> acceptance_message python_for_guitar_accepted = Some ''Sure''"
proof -
  have run: "update_swap_request db_pending 2 1 (Some ''accepted'') (Some '' Sure '') =
     (Inr python_for_guitar_accepted, db_accepted)"
    by (simp add: update_swap_request_def db_pending_def db_accepted_def python_for_guitar_def
                  python_for_guitar_accepted_def can_be_updated_by_def valid_statuses_def
                  get_str_def strip_def isspace_def sanitize_string_def Let_def)
  have text_eq: "strip (get_str (Some '' Sure '')) = ''Sure''"
    by (simp add: get_str_def strip_def isspace_def)
  have st: "swap_request.status python_for_guitar_accepted = ''accepted''"
    by (simp add: python_for_guitar_accepted_def)
  from update_swap_request_frame[OF find_db_pending run] run text_eq st show ?thesis
    by simp
qed

section \<open>Moderation of skills\<close>

lemma column_value_not_text: "column_value c \<noteq> PyStr u"
  by (simp add: column_value_def split: option.splits)

lemma update_skill_answer:
  "update_skill db user_id skill_id name_in description_in category_in =
     (case find (\<lambda>x. skill_pk x = skill_id) (skills db) of
        None \<Rightarrow> (Inl NotFound, db)
      | Some s \<Rightarrow> (Inl Forbidden, db))"
  by (simp add: update_skill_def column_value_not_text split: option.splits)

lemma delete_skill_answer:
  "delete_skill db user_id skill_id =
     (case find (\<lambda>x. skill_pk x = skill_id) (skills db) of
        None \<Rightarrow> (Inl NotFound, db)
      | Some s \<Rightarrow> (Inl Forbidden, db))"
  by (simp add: delete_skill_def column_value_not_text split: option.splits)

lemma skill_owner_calls_keep_store:
  "snd (update_skill db user_id skill_id name_in description_in category_in) = db"
  "snd (delete_skill db user_id skill_id) = db"
  by (simp_all add: update_skill_answer delete_skill_answer split: option.splits)

lemma approve_skill_clears_reason:
  assumes "find (\<lambda>x. skill_pk x = skill_id) (skills db) = Some s"
  shows "approve_skill db skill_id =
           (Inr (s\<lparr>skill.status := ''approved'', rejection_reason := None\<rparr>),
            db\<lparr>skills :=
                  map (\<lambda>x. if skill_pk x = skill_id
                            then s\<lparr>skill.status := ''approved'', rejection_reason := None\<rparr>
                            else x) (skills db)\<rparr>)"
  using assms by (simp add: approve_skill_def Let_def)

lemma create_skill_failure:
  "create_skill db user_id name_in description_in category_in = (Inl e, db') \<Longrightarrow> db' = db"
  by (auto simp: create_skill_def Let_def split: if_splits)

lemma create_skill_success:
  assumes "create_skill db user_id name_in description_in category_in = (Inr s, db')"
  shows "skill_pk s = next_id (map skill_pk (skills db))"
    and "name s = take 100 (strip (get_str name_in))"
    and "description s = Some (take 500 (strip (get_str description_in)))"
    and "category s = Some (take 50 (strip (get_str category_in)))"
    and "skill.status s = ''pending''"
    and "rejection_reason s = None"
    and "created_by s = Some user_id"
    and "db' = db\<lparr>skills := skills db @ [s]\<rparr>"
  using assms
  by (auto simp: create_skill_def Let_def sanitize_string_strip sanitize_string_take
           split: if_splits)

lemma create_skill_succeeds_iff:
  "(\<exists>s db'. create_skill db user_id name_in description_in category_in = (Inr s, db')) \<longleftrightarrow>
     strip (get_str name_in) \<noteq> [] \<and>
     find (\<lambda>s. name s = strip (get_str name_in)) (skills db) = None \<and>
     take 100 (strip (get_str name_in)) \<notin> set (map name (skills db))"
  by (auto simp: create_skill_def Let_def sanitize_string_strip sanitize_string_take)

lemma create_swap_request_succeeds_iff:
  "(\<exists>r db'. create_swap_request db user_id receiverId skillOffered skillWanted msg = (Inr r, db'))
   \<longleftrightarrow>
     (\<exists>rid. receiverId = Some rid \<and> rid \<noteq> 0 \<and> rid \<noteq> user_id \<and>
            find (\<lambda>u. user_pk u = rid \<and> \<not> is_banned u) (users db) \<noteq> None \<and>
            find (\<lambda>r. requester_id r = user_id \<and> receiver_id r = rid \<and>
                       skill_offered r = strip (get_str skillOffered) \<and>
                       skill_wanted r = strip (get_str skillWanted) \<and>
                       swap_request.status r = ''pending'') (swap_requests db) = None) \<and>
     strip (get_str skillOffered) \<noteq> [] \<and> strip (get_str skillWanted) \<noteq> []"
  by (cases receiverId) (auto simp: create_swap_request_def Let_def)

text \<open>
  What the two lookups do achieve. A create call whose trimmed skills have at most 100
  characters keeps the pending requests free of duplicates, and is answered \<open>Conflict\<close>
  when a pending request with its four values is there. Every call keeps the keys and
  the names of the skills table unique.
\<close>

lemma find_None_D: "find P xs = None \<Longrightarrow> x \<in> set xs \<Longrightarrow> \<not> P x"
  by (auto simp: find_None_iff)

lemma create_swap_request_pending_unique:
  assumes "pending_unique db"
      and "length (strip (get_str skillOffered)) \<le> 100"
      and "length (strip (get_str skillWanted)) \<le> 100"
  shows "pending_unique
           (snd (create_swap_request db user_id receiverId skillOffered skillWanted msg))"
proof (cases "create_swap_request db user_id receiverId skillOffered skillWanted msg")
  case (Pair res db')
  show ?thesis
  proof (cases res)
    case (Inl e)
    with Pair assms(1) show ?thesis by (auto dest: create_swap_request_failure)
  next
    case (Inr r)
    with Pair have run: "create_swap_request db user_id receiverId skillOffered skillWanted msg
        = (Inr r, db')" by simp
    note facts = create_swap_request_success[OF run]
    from create_swap_request_succeeds_iff[of db user_id receiverId skillOffered skillWanted msg]
         run facts(3)
    have none: "find (\<lambda>x. requester_id x = user_id \<and> receiver_id x = receiver_id r \<and>
                       skill_offered x = strip (get_str skillOffered) \<and>
                       skill_wanted x = strip (get_str skillWanted) \<and>
                       swap_request.status x = ''pending'') (swap_requests db) = None"
      by auto
    have key: "request_key r =
        (user_id, receiver_id r, strip (get_str skillOffered), strip (get_str skillWanted))"
      using assms(2,3) by (simp add: request_key_def facts(2,4,5))
    have "request_key r \<notin>
            set (map request_key
                   (filter (\<lambda>x. swap_request.status x = ''pending'') (swap_requests db)))"
    proof
      assume "request_key r \<in>
            set (map request_key
                   (filter (\<lambda>x. swap_request.status x = ''pending'') (swap_requests db)))"
      then obtain x where x: "x \<in> set (swap_requests db)" "swap_request.status x = ''pending''"
          "request_key x = request_key r"
        by auto
      from find_None_D[OF none x(1)] x(2,3) key show False
        by (simp add: request_key_def)
    qed
    with assms(1) facts(8) Pair show ?thesis
      by (simp add: pending_unique_def facts(9))
  qed
qed

lemma distinct_names_replace:
  assumes "distinct (map pk xs)" and "distinct (map nm xs)" and "pk y' = i"
      and "find (\<lambda>x. pk x \<noteq> i \<and> nm x = nm y') xs = None"
  shows "distinct (map nm (map (\<lambda>x. if pk x = i then y' else x) xs))"
  using assms
proof (induction xs)
  case Nil
  then show ?case by simp
next
  case (Cons x xs)
  from Cons.prems(4) have rest: "find (\<lambda>x. pk x \<noteq> i \<and> nm x = nm y') xs = None"
    by (simp split: if_splits)
  from Cons.prems(1,2) have d: "distinct (map pk xs)" "distinct (map nm xs)"
    by simp_all
  note ih = Cons.IH[OF d Cons.prems(3) rest]
  show ?case
  proof (cases "pk x = i")
    case True
    from Cons.prems(1) have "pk x \<notin> pk ` set xs" by simp
    with True have other: "\<And>z. z \<in> set xs \<Longrightarrow> pk z \<noteq> i"
      by (metis imageI)
    then have same: "map (\<lambda>x. if pk x = i then y' else x) xs = xs"
      by (simp add: map_idI)
    have "nm y' \<notin> set (map nm xs)"
    proof
      assume "nm y' \<in> set (map nm xs)"
      then obtain z where z: "z \<in> set xs" "nm z = nm y'" by auto
      from find_None_D[OF rest z(1)] other[OF z(1)] z(2) show False by simp
    qed
    with True d(2) show ?thesis by (simp add: same)
  next
    case False
    with Cons.prems(4) have ne: "nm x \<noteq> nm y'" by (simp split: if_splits)
    have "nm x \<notin> set (map nm (map (\<lambda>x. if pk x = i then y' else x) xs))"
    proof
      assume "nm x \<in> set (map nm (map (\<lambda>x. if pk x = i then y' else x) xs))"
      then obtain z where z: "z \<in> set xs" "nm x = nm (if pk z = i then y' else z)"
        by auto
      show False
      proof (cases "pk z = i")
        case True
        with z(2) ne show False by simp
      next
        case False
        with z have "nm x \<in> nm ` set xs" by auto
        with Cons.prems(2) show False by simp
      qed
    qed
    with False ih show ?thesis by simp
  qed
qed

lemma skills_ok_replace_same_name:
  assumes "skills_ok db"
      and "find (\<lambda>x. skill_pk x = i) (skills db) = Some s"
      and "skill_pk s' = skill_pk s" and "name s' = name s"
  shows "skills_ok (db\<lparr>skills := map (\<lambda>x. if skill_pk x = i then s' else x) (skills db)\<rparr>)"
proof -
  from assms(1) have d: "distinct (map skill_pk (skills db))" "distinct (map name (skills db))"
    by (simp_all add: skills_ok_def)
  from assms(2) have s: "s \<in> set (skills db)" "skill_pk s = i"
    by (auto dest: find_SomeD)
  with assms(3) have pk: "skill_pk s' = i" by simp
  have free: "find (\<lambda>x. skill_pk x \<noteq> i \<and> name x = name s') (skills db) = None"
  proof (rule ccontr)
    assume "find (\<lambda>x. skill_pk x \<noteq> i \<and> name x = name s') (skills db) \<noteq> None"
    then obtain x where x: "x \<in> set (skills db)" "skill_pk x \<noteq> i" "name x = name s'"
      by (auto dest: find_SomeD)
    from d(2) x(1) s(1) x(3) assms(4) have "x = s"
      by (simp add: distinct_map inj_on_def)
    with x(2) s(2) show False by simp
  qed
  have "distinct (map name (map (\<lambda>x. if skill_pk x = i then s' else x) (skills db)))"
    by (rule distinct_names_replace[OF d pk free])
  moreover have "distinct (map skill_pk (map (\<lambda>x. if skill_pk x = i then s' else x) (skills db)))"
    unfolding map_pk_replace[of skill_pk, OF pk] by (rule d(1))
  ultimately show ?thesis by (simp add: skills_ok_def del: map_map)
qed

lemma apply_op_skills_ok:
  assumes "skills_ok db"
  shows "skills_ok (apply_op db c)"
proof (cases c)
  case (CreateSkill user_id name_in description_in category_in)
  show ?thesis
  proof (cases "create_skill db user_id name_in description_in category_in")
    case (Pair res db')
    show ?thesis
    proof (cases res)
      case (Inl e)
      with Pair CreateSkill assms show ?thesis by (auto dest: create_skill_failure)
    next
      case (Inr s)
      with Pair have run: "create_skill db user_id name_in description_in category_in
          = (Inr s, db')" by simp
      note facts = create_skill_success[OF run]
      have "skill_pk s \<notin> set (map skill_pk (skills db))"
        unfolding facts(1) by (rule next_id_fresh)
      moreover from create_skill_succeeds_iff[of db user_id name_in description_in category_in]
           run facts(2)
      have "name s \<notin> set (map name (skills db))" by auto
      ultimately show ?thesis using assms CreateSkill Pair
        by (simp add: skills_ok_def facts(8))
    qed
  qed
next
  case (UpdateSkill user_id skill_id name_in description_in category_in)
  with assms show ?thesis by (simp add: skill_owner_calls_keep_store)
next
  case (DeleteSkill user_id skill_id)
  with assms show ?thesis by (simp add: skill_owner_calls_keep_store)
next
  case (ApproveSkill skill_id)
  show ?thesis
  proof (cases "find (\<lambda>x. skill_pk x = skill_id) (skills db)")
    case None
    with ApproveSkill assms show ?thesis by (simp add: approve_skill_def)
  next
    case (Some s)
    from skills_ok_replace_same_name[OF assms Some,
           of "s\<lparr>skill.status := ''approved'', rejection_reason := None\<rparr>"]
    show ?thesis using ApproveSkill Some by (simp add: approve_skill_def Let_def)
  qed
next
  case (RejectSkill skill_id reason_in)
  show ?thesis
  proof (cases "find (\<lambda>x. skill_pk x = skill_id) (skills db)")
    case None
    with RejectSkill assms show ?thesis by (simp add: reject_skill_def Let_def)
  next
    case (Some s)
    from skills_ok_replace_same_name[OF assms Some,
           of "s\<lparr>skill.status := ''rejected'',
                  rejection_reason :=
                    Some (sanitize_string (strip (get_str reason_in)) (Some 500))\<rparr>"]
    show ?thesis using RejectSkill Some assms by (simp add: reject_skill_def Let_def)
  qed
qed (use assms in \<open>auto simp: skills_ok_def create_swap_request_def update_swap_request_def
       delete_swap_request_def Let_def split: option.splits if_splits\<close>)


lemma run_ops_skills_ok: "skills_ok db \<Longrightarrow> skills_ok (run_ops db cs)"
  by (induction cs arbitrary: db) (simp_all add: apply_op_skills_ok)

lemma create_swap_request_conflict:
  assumes "rid \<noteq> 0" and "user_id \<noteq> rid"
      and "strip (get_str skillOffered) \<noteq> []" and "strip (get_str skillWanted) \<noteq> []"
      and "find (\<lambda>u. user_pk u = rid \<and> \<not> is_banned u) (users db) \<noteq> None"
      and "x \<in> set (swap_requests db)" and "swap_request.status x = ''pending''"
      and "request_key x =
             (user_id, rid, strip (get_str skillOffered), strip (get_str skillWanted))"
  shows "create_swap_request db user_id (Some rid) skillOffered skillWanted msg =
           (Inl Conflict, db)"
proof -
  have "find (\<lambda>r. requester_id r = user_id \<and> receiver_id r = rid \<and>
                   skill_offered r = strip (get_str skillOffered) \<and>
                   skill_wanted r = strip (get_str skillWanted) \<and>
                   swap_request.status r = ''pending'') (swap_requests db) \<noteq> None"
    using assms(6,7,8) by (auto simp: find_None_iff request_key_def)
  with assms(1-5) show ?thesis
    by (simp add: create_swap_request_def Let_def)
qed

text \<open>
  Claim C7 says that proposing a skill either fails with \<open>Conflict\<close> or creates the
  skill. The handler looks for a skill with the trimmed name and then stores the name cut
  to 100 characters: a name of 101 letters whose first 100 letters are taken passes the
  lookup, the insert breaks the unique constraint, and the answer is the 500 of the
  \<^verbatim>\<open>except\<close> branch, neither \<open>Conflict\<close> nor a new skill.
\<close>

theorem create_skill_cut_name_collides:
  "create_skill db_empty 3 (Some cut_text) None None = (Inr long_skill, db_long_skill)
   \<and> create_skill db_long_skill 3 (Some cut_text) None None = (Inl Conflict, db_long_skill)
   \<and> create_skill db_long_skill 3 (Some long_text) None None = (Inl InternalError, db_long_skill)"
proof -
  have g: "strip [] = []"
    by (simp add: strip_def)
  have first: "create_skill db_empty 3 (Some cut_text) None None = (Inr long_skill, db_long_skill)"
    by (simp add: create_skill_def db_empty_def db_long_skill_def long_skill_def
                  get_str_def long_text_cut g sanitize_string_def next_id_def Let_def)
  have second:
    "create_skill db_long_skill 3 (Some cut_text) None None = (Inl Conflict, db_long_skill)"
    by (simp add: create_skill_def db_long_skill_def long_skill_def
                  get_str_def long_text_cut g Let_def)
  have third:
    "create_skill db_long_skill 3 (Some long_text) None None = (Inl InternalError, db_long_skill)"
    by (simp add: create_skill_def db_long_skill_def long_skill_def
                  get_str_def long_text_cut g sanitize_string_def Let_def)
  from first second third show ?thesis by simp
qed


text \<open>
  Claim C10: a skill whose status is pending or rejected is not found by the public
  read of a single skill. The handler takes no identity at all, so this holds for the
  creator as for anyone else.
\<close>

theorem get_skill_by_id_hides_unapproved:
  assumes "distinct (map skill_pk (skills db))"
      and "s \<in> set (skills db)"
      and "skill.status s = ''pending'' \<or> skill.status s = ''rejected''"
  shows "get_skill_by_id db (skill_pk s) = Inl NotFound"
proof -
  have "find (\<lambda>x. skill_pk x = skill_pk s \<and> skill.status x = ''approved'') (skills db) = None"
  proof (rule ccontr)
    assume "find (\<lambda>x. skill_pk x = skill_pk s \<and> skill.status x = ''approved'') (skills db) \<noteq> None"
    then obtain x where x: "x \<in> set (skills db)" "skill_pk x = skill_pk s"
        "skill.status x = ''approved''"
      by (auto dest: find_SomeD)
    from assms(1) x(1) assms(2) x(2) have "x = s"
      by (simp add: distinct_map inj_on_def)
    with x(3) assms(3) show False by auto
  qed
  then show ?thesis by (simp add: get_skill_by_id_def)
qed

theorem get_skill_by_id_hides_unapproved_witness:
  "get_skill_by_id db_pending 1 = Inl NotFound \<and> get_skill_by_id db_rejected 1 = Inl NotFound"
proof -
  have "distinct (map skill_pk (skills db_pending))" "origami \<in> set (skills db_pending)"
       "skill.status origami = ''pending'' \<or> skill.status origami = ''rejected''"
    by (simp_all add: db_pending_def origami_def)
  from get_skill_by_id_hides_unapproved[OF this]
  have a: "get_skill_by_id db_pending 1 = Inl NotFound"
    by (simp add: origami_def)
  have "distinct (map skill_pk (skills db_rejected))" "origami_rejected \<in> set (skills db_rejected)"
       "skill.status origami_rejected = ''pending'' \<or> skill.status origami_rejected = ''rejected''"
    by (simp_all add: db_rejected_def origami_rejected_def)
  from get_skill_by_id_hides_unapproved[OF this]
  have b: "get_skill_by_id db_rejected 1 = Inl NotFound"
    by (simp add: origami_rejected_def)
  from a b show ?thesis by simp
qed

text \<open>
  Claim C6: a rejection whose reason is absent, empty or blank fails with
  \<open>InvalidArgument\<close> and leaves the store (so the status and the reason of the skill)
  as it was; with any other reason the skill becomes rejected and stores the reason
  trimmed and cut to 500 characters.
\<close>

theorem reject_skill_reason:
  "(strip (get_str reason_in) = [] \<longrightarrow>
      reject_skill db skill_id reason_in = (Inl InvalidArgument, db))
 \<and> (strip (get_str reason_in) \<noteq> [] \<and>
      find (\<lambda>x. skill_pk x = skill_id) (skills db) = Some s \<longrightarrow>
      reject_skill db skill_id reason_in =
        (Inr (s\<lparr>skill.status := ''rejected'',
                 rejection_reason := Some (take 500 (strip (get_str reason_in)))\<rparr>),
         db\<lparr>skills :=
               map (\<lambda>x. if skill_pk x = skill_id
                         then s\<lparr>skill.status := ''rejected'',
                                 rejection_reason := Some (take 500 (strip (get_str reason_in)))\<rparr>
                         else x) (skills db)\<rparr>))"
  by (simp add: reject_skill_def Let_def sanitize_string_strip sanitize_string_take)

theorem reject_skill_reason_witness:
  "reject_skill db_pending 1 (Some ''   '') = (Inl InvalidArgument, db_pending)
   \<and> reject_skill db_pending 1 None = (Inl InvalidArgument, db_pending)
   \<and> reject_skill db_pending 1 (Some '' too niche '') = (Inr origami_rejected, db_rejected)"
proof -
  have b1: "strip (get_str (Some ''   '')) = []" and b2: "strip (get_str None) = []"
    and b3: "strip (get_str (Some '' too niche '')) = ''too niche''"
    by (simp_all add: get_str_def strip_def isspace_def)
  from reject_skill_reason[of "Some ''   ''" db_pending 1 origami]
       reject_skill_reason[of None db_pending 1 origami]
       reject_skill_reason[of "Some '' too niche ''" db_pending 1 origami]
       find_origami b1 b2 b3
  show ?thesis
    by (simp add: db_pending_def db_rejected_def origami_def origami_rejected_def)
qed

lemma approve_skill_rejected_origami:
  "approve_skill db_rejected 1 = (Inr origami_approved, db_approved)"
  by (simp add: approve_skill_def db_rejected_def db_approved_def origami_rejected_def
                origami_approved_def Let_def)

text \<open>
  Claim C5 says that an edit by the creator leaves the skill pending with no rejection
  reason. The approval does clear the reason (\<open>approve_skill_clears_reason\<close>), and the
  edit would, in the lines that follow the guard. But the guard never lets anyone pass:
  it compares the number in \<^verbatim>\<open>created_by\<close> with the text of the token. User 3, whose
  identity is the text \<^verbatim>\<open>'3'\<close>, edits the description of the skill that 3 created and
  that was rejected as too niche: the answer is \<open>Forbidden\<close>, and the skill stays
  rejected with its reason.
\<close>

theorem update_skill_creator_forbidden:
  "skills db_rejected = [origami_rejected]
   \<and> skill_pk origami_rejected = 1
   \<and> created_by origami_rejected = Some 3
   \<and> skill.status origami_rejected = ''rejected''
   \<and> rejection_reason origami_rejected = Some ''too niche''
   \<and> update_skill db_rejected ''3'' 1 None (Some ''Folding paper'') None =
       (Inl Forbidden, db_rejected)"
  by (simp add: update_skill_def column_value_def db_rejected_def origami_rejected_def)

section \<open>Stored strings\<close>

lemma create_skill_within_cap:
  assumes "length (strip (get_str name_in)) \<le> 100"
  shows "fst (create_skill db user_id name_in description_in category_in) \<noteq> Inl InternalError"
proof -
  have "find (\<lambda>s. name s = strip (get_str name_in)) (skills db) = None
          \<Longrightarrow> strip (get_str name_in) \<notin> set (map name (skills db))"
    by (auto simp: find_None_iff)
  with assms show ?thesis
    by (auto simp: create_skill_def Let_def sanitize_string_def strip_strip)
qed


end
